theory Spec2Isabelle
  imports Main
begin

section \<open>The tables of main.py\<close>

text \<open>
  The three mapped classes \<^verbatim>\<open>User\<close>, \<^verbatim>\<open>BlogPost\<close> and \<^verbatim>\<open>Comment\<close>, one record per row.
  Field names carry the table's initial because the three classes all have a column
  \<^verbatim>\<open>id\<close>. The foreign keys \<^verbatim>\<open>author_id\<close> and \<^verbatim>\<open>post_id\<close> are declared without
  \<^verbatim>\<open>nullable=False\<close>, so they are \<open>int option\<close>: \<open>None\<close> is SQL NULL.
\<close>

record user =
  u_id :: int
  u_name :: string
  u_email :: string
  u_password :: string

record blog_post =
  p_id :: int
  p_title :: string
  p_subtitle :: string
  p_date :: string
  p_body :: string
  p_img_url :: string
  p_author_id :: "int option"

record comment =
  c_id :: int
  c_text :: string
  c_post_id :: "int option"
  c_author_id :: "int option"

text \<open>
  The store behind \<^verbatim>\<open>db\<close>: the rows of each table in insertion order, and for each
  table the next value of its primary-key sequence (the columns are
  \<^verbatim>\<open>db.Integer, primary_key=True\<close>, which the store fills in on insert).
\<close>

record db =
  users :: "user list"
  blog_posts :: "blog_post list"
  comments :: "comment list"
  users_seq :: int
  blog_posts_seq :: int
  comments_seq :: int

definition db_empty :: db where
  "db_empty = \<lparr>users = [], blog_posts = [], comments = [],
     users_seq = 1, blog_posts_seq = 1, comments_seq = 1\<rparr>"

section \<open>The session, the current user and the responses\<close>

text \<open>
  What one browser's session cookie holds: the id \<^verbatim>\<open>login_user\<close> stored and the
  messages passed to \<^verbatim>\<open>flash\<close> that are still pending.
\<close>

record session =
  s_user_id :: "int option"
  s_flashes :: "string list"

definition session_empty :: session where
  "session_empty = \<lparr>s_user_id = None, s_flashes = []\<rparr>"

definition flash :: "string \<Rightarrow> session \<Rightarrow> session" where
  "flash message se = se\<lparr>s_flashes := s_flashes se @ [message]\<rparr>"

definition login_user :: "user \<Rightarrow> session \<Rightarrow> session" where
  "login_user u se = se\<lparr>s_user_id := Some (u_id u)\<rparr>"

definition logout_user :: "session \<Rightarrow> session" where
  "logout_user se = se\<lparr>s_user_id := None\<rparr>"

text \<open>
  \<^verbatim>\<open>load_user\<close> is \<^verbatim>\<open>User.query.filter_by(id = user_id).first()\<close>. \<^verbatim>\<open>current_user\<close> is
  the user it returns for the id in the session, and the anonymous user when the
  session holds no id or the loader returns \<^verbatim>\<open>None\<close>.
\<close>

definition load_user :: "db \<Rightarrow> int \<Rightarrow> user option" where
  "load_user d user_id = find (\<lambda>u. u_id u = user_id) (users d)"

datatype identity = Anonymous | Authenticated user

definition current_user :: "db \<Rightarrow> session \<Rightarrow> identity" where
  "current_user d se =
     (case s_user_id se of
        None \<Rightarrow> Anonymous
      | Some user_id \<Rightarrow>
          (case load_user d user_id of
             None \<Rightarrow> Anonymous
           | Some u \<Rightarrow> Authenticated u))"

text \<open>
  The forms of forms.py as the views read them (\<^verbatim>\<open>form.field.data\<close>). A view receives
  \<open>Some form\<close> when \<^verbatim>\<open>validate_on_submit()\<close> is true (a POST whose fields passed the
  form's validators) and \<open>None\<close> otherwise (a GET, or a submission that did not validate).
\<close>

record register_form =
  rf_name :: string
  rf_email :: string
  rf_password :: string

record login_form =
  lf_email :: string
  lf_password :: string

record comment_form =
  comment_text :: string

record create_post_form =
  f_title :: string
  f_subtitle :: string
  f_img_url :: string
  f_body :: string

text \<open>
  A response is the template a view renders with the data it passes to it, a redirect
  to \<^verbatim>\<open>url_for\<close> of a view, \<^verbatim>\<open>abort(code)\<close>, or an exception no view catches.
  \<open>Render\<close> records the call of \<^verbatim>\<open>render_template\<close> and the arguments the claims are
  about; what the templates do with them is not part of main.py. The footer's
  \<^verbatim>\<open>current_year\<close> and the form objects are left out. An unhandled exception is
  answered with HTTP 500; the store and the session are then as the request found them.
\<close>

datatype url = Url_get_all_posts | Url_login | Url_show_post int

datatype page =
    Index_html "blog_post list"
  | Register_html
  | Login_html
  | Post_html "blog_post option" "comment list"
  | Make_post_html
  | About_html
  | Contact_html

datatype exn = AttributeError | UnmappedInstanceError | ValueError | DataError

datatype response = Render page | Redirect url | Abort nat | Unhandled exn

type_synonym view = "db \<Rightarrow> session \<Rightarrow> db \<times> session \<times> response"

section \<open>The two decorators\<close>

text \<open>
  \<^verbatim>\<open>login_required\<close> of Flask-Login calls the view for an authenticated user and returns
  \<^verbatim>\<open>login_manager.unauthorized()\<close> otherwise, which redirects to the manager's
  \<^verbatim>\<open>login_view\<close> when one is set and aborts with 401 when none is. main.py creates the
  manager with \<^verbatim>\<open>LoginManager(app)\<close> and never assigns \<^verbatim>\<open>login_view\<close>.
\<close>

record login_manager_config =
  login_view :: "url option"

definition login_manager :: login_manager_config where
  "login_manager = \<lparr>login_view = None\<rparr>"

definition unauthorized :: "login_manager_config \<Rightarrow> response" where
  "unauthorized lm = (case login_view lm of None \<Rightarrow> Abort 401 | Some v \<Rightarrow> Redirect v)"

definition login_required :: "login_manager_config \<Rightarrow> view \<Rightarrow> view" where
  "login_required lm func d se =
     (case current_user d se of
        Anonymous \<Rightarrow> (d, se, unauthorized lm)
      | Authenticated u \<Rightarrow> func d se)"

text \<open>
  \<^verbatim>\<open>admin_only\<close> reads \<^verbatim>\<open>current_user.id\<close>; the anonymous user has no attribute \<^verbatim>\<open>id\<close>.
\<close>

definition admin_only :: "view \<Rightarrow> view" where
  "admin_only func d se =
     (case current_user d se of
        Anonymous \<Rightarrow> (d, se, Unhandled AttributeError)
      | Authenticated u \<Rightarrow>
          if u_id u \<noteq> 1 then (d, se, Abort 403) else func d se)"

section \<open>What the store rejects\<close>

text \<open>
  \<^verbatim>\<open>db.session.commit()\<close> sends the pending rows to the store, and no view catches what
  it raises. A string that holds the NUL character is refused before it is sent
  (\<^verbatim>\<open>ValueError\<close>); a string of more than 250 characters is refused by a column declared
  \<^verbatim>\<open>db.String(250)\<close> (\<^verbatim>\<open>DataError\<close>); a \<^verbatim>\<open>db.Text\<close> column has no bound.
  \<open>commit_error strings texts\<close> is the exception of a commit that writes \<open>strings\<close> to
  \<^verbatim>\<open>db.String(250)\<close> columns and \<open>texts\<close> to \<^verbatim>\<open>db.Text\<close> columns, if it raises one.
  A \<open>char\<close> counts as one character.
\<close>

definition has_nul :: "string \<Rightarrow> bool" where
  "has_nul s = (CHR 0x00 \<in> set s)"

definition too_long :: "string \<Rightarrow> bool" where
  "too_long s = (250 < length s)"

definition commit_error :: "string list \<Rightarrow> string list \<Rightarrow> exn option" where
  "commit_error strings texts =
     (if \<exists>s \<in> set (strings @ texts). has_nul s then Some ValueError
      else if \<exists>s \<in> set strings. too_long s then Some DataError
      else None)"

section \<open>The views\<close>

text \<open>
  The two functions of \<^verbatim>\<open>werkzeug.security\<close> that main.py imports.
  \<^verbatim>\<open>generate_password_hash\<close> draws a random salt; here the salt drawn is its first argument.
\<close>

record werkzeug =
  generate_password_hash :: "string \<Rightarrow> string \<Rightarrow> string"
  check_password_hash :: "string \<Rightarrow> string \<Rightarrow> bool"

definition get_all_posts :: view where
  "get_all_posts d se = (d, se, Render (Index_html (blog_posts d)))"

definition register :: "werkzeug \<Rightarrow> string \<Rightarrow> register_form option \<Rightarrow> view" where
  "register w salt sub d se =
     (case sub of
        None \<Rightarrow> (d, se, Render Register_html)
      | Some form \<Rightarrow>
          (let hash_and_salted_password = generate_password_hash w salt (rf_password form) in
           case find (\<lambda>u. u_email u = rf_email form) (users d) of
             Some existing \<Rightarrow>
               (d, flash ''You've already signed up with that email, log in instead!'' se,
                Redirect Url_login)
           | None \<Rightarrow>
               (let new_user = \<lparr>u_id = users_seq d, u_name = rf_name form,
                      u_email = rf_email form, u_password = hash_and_salted_password\<rparr>
                in case commit_error [u_name new_user, u_email new_user, u_password new_user] []
                   of
                     Some e \<Rightarrow> (d, se, Unhandled e)
                   | None \<Rightarrow>
                       (d\<lparr>users := users d @ [new_user], users_seq := users_seq d + 1\<rparr>,
                        login_user new_user se, Redirect Url_get_all_posts))))"

definition login :: "werkzeug \<Rightarrow> login_form option \<Rightarrow> view" where
  "login w sub d se =
     (case sub of
        None \<Rightarrow> (d, se, Render Login_html)
      | Some form \<Rightarrow>
          (case find (\<lambda>u. u_email u = lf_email form) (users d) of
             Some u \<Rightarrow>
               if check_password_hash w (u_password u) (lf_password form)
               then (d, login_user u se, Redirect Url_get_all_posts)
               else (d, flash ''Password incorrect, please try again.'' se, Redirect Url_login)
           | None \<Rightarrow>
               (d, flash ''That email does not exist, please try again.'' se,
                Redirect Url_login)))"

definition logout :: view where
  "logout d se = (d, logout_user se, Redirect Url_get_all_posts)"

text \<open>
  \<^verbatim>\<open>show_post\<close> runs both queries first; \<^verbatim>\<open>all_comments_of_post\<close> is the list that
  \<^verbatim>\<open>Comment.query.all()\<close> returned then. The new comment's \<^verbatim>\<open>parent_post\<close> is the
  post found, or \<^verbatim>\<open>None\<close>.
\<close>

definition show_post :: "int \<Rightarrow> comment_form option \<Rightarrow> view" where
  "show_post post_id sub d se =
     (let requested_post = find (\<lambda>p. p_id p = post_id) (blog_posts d);
          all_comments_of_post = comments d
      in case sub of
           None \<Rightarrow> (d, se, Render (Post_html requested_post all_comments_of_post))
         | Some form \<Rightarrow>
             (case current_user d se of
                Anonymous \<Rightarrow> (d, flash ''you need to log in to comment!'' se, Redirect Url_login)
              | Authenticated u \<Rightarrow>
                  (let new_comment = \<lparr>c_id = comments_seq d, c_text = comment_text form,
                         c_post_id = map_option p_id requested_post,
                         c_author_id = Some (u_id u)\<rparr>
                   in case commit_error [] [c_text new_comment] of
                        Some e \<Rightarrow> (d, se, Unhandled e)
                      | None \<Rightarrow>
                          (d\<lparr>comments := comments d @ [new_comment],
                             comments_seq := comments_seq d + 1\<rparr>,
                           se, Render (Post_html requested_post all_comments_of_post)))))"

text \<open>
  The three admin views before decoration. \<^verbatim>\<open>today\<close> is
  \<^verbatim>\<open>date.today().strftime("%B %d, %Y")\<close> at the time of the request. Under the
  decorators the current user is authenticated; assigning the anonymous user, which is
  no mapped object, to \<^verbatim>\<open>author\<close> raises.
\<close>

definition add_new_post_view :: "string \<Rightarrow> create_post_form option \<Rightarrow> view" where
  "add_new_post_view today sub d se =
     (case sub of
        None \<Rightarrow> (d, se, Render Make_post_html)
      | Some form \<Rightarrow>
          (case current_user d se of
             Anonymous \<Rightarrow> (d, se, Unhandled AttributeError)
           | Authenticated u \<Rightarrow>
               (let new_post = \<lparr>p_id = blog_posts_seq d, p_title = f_title form,
                      p_subtitle = f_subtitle form, p_date = today, p_body = f_body form,
                      p_img_url = f_img_url form, p_author_id = Some (u_id u)\<rparr>
                in case commit_error
                       [p_title new_post, p_subtitle new_post, p_date new_post, p_img_url new_post]
                       [p_body new_post]
                   of
                     Some e \<Rightarrow> (d, se, Unhandled e)
                   | None \<Rightarrow>
                       (d\<lparr>blog_posts := blog_posts d @ [new_post],
                          blog_posts_seq := blog_posts_seq d + 1\<rparr>,
                        se, Redirect Url_get_all_posts))))"

text \<open>
  \<^verbatim>\<open>edit_post\<close> reads \<^verbatim>\<open>post.title\<close> to build the form before anything else, which
  raises when \<^verbatim>\<open>BlogPost.query.get\<close> returned \<^verbatim>\<open>None\<close>. The commit writes the row whose
  primary key is the post's; it sends the attributes that changed, and the values a
  stored row already has have passed the store's checks.
\<close>

definition edit_post_view :: "int \<Rightarrow> create_post_form option \<Rightarrow> view" where
  "edit_post_view post_id sub d se =
     (case find (\<lambda>p. p_id p = post_id) (blog_posts d) of
        None \<Rightarrow> (d, se, Unhandled AttributeError)
      | Some post \<Rightarrow>
          (case sub of
             None \<Rightarrow> (d, se, Render Make_post_html)
           | Some edit_form \<Rightarrow>
               (case current_user d se of
                  Anonymous \<Rightarrow> (d, se, Unhandled AttributeError)
                | Authenticated u \<Rightarrow>
                    (case commit_error
                            [f_title edit_form, f_subtitle edit_form, f_img_url edit_form]
                            [f_body edit_form]
                     of
                       Some e \<Rightarrow> (d, se, Unhandled e)
                     | None \<Rightarrow>
                         (d\<lparr>blog_posts :=
                              map (\<lambda>p. if p_id p = p_id post
                                        then p\<lparr>p_title := f_title edit_form,
                                               p_subtitle := f_subtitle edit_form,
                                               p_img_url := f_img_url edit_form,
                                               p_author_id := Some (u_id u),
                                               p_body := f_body edit_form\<rparr>
                                        else p)
                                  (blog_posts d)\<rparr>,
                          se, Redirect (Url_show_post (p_id post)))))))"

text \<open>
  \<^verbatim>\<open>db.session.delete(None)\<close> raises. Deleting a post whose \<^verbatim>\<open>comments\<close> relationship
  has no delete cascade makes the ORM set \<^verbatim>\<open>post_id\<close> of the post's comments to NULL
  in the same commit (its default for a one-to-many relationship; the column is nullable).
\<close>

definition delete_post_view :: "int \<Rightarrow> view" where
  "delete_post_view post_id d se =
     (case find (\<lambda>p. p_id p = post_id) (blog_posts d) of
        None \<Rightarrow> (d, se, Unhandled UnmappedInstanceError)
      | Some post_to_delete \<Rightarrow>
          (d\<lparr>blog_posts := filter (\<lambda>p. p_id p \<noteq> p_id post_to_delete) (blog_posts d),
             comments :=
               map (\<lambda>c. if c_post_id c = Some (p_id post_to_delete)
                         then c\<lparr>c_post_id := None\<rparr> else c)
                   (comments d)\<rparr>,
           se, Redirect Url_get_all_posts))"

text \<open>The routes as decorated: \<^verbatim>\<open>@login_required\<close> outside \<^verbatim>\<open>@admin_only\<close>.\<close>

definition add_new_post :: "string \<Rightarrow> create_post_form option \<Rightarrow> view" where
  "add_new_post today sub = login_required login_manager (admin_only (add_new_post_view today sub))"

definition edit_post :: "int \<Rightarrow> create_post_form option \<Rightarrow> view" where
  "edit_post post_id sub = login_required login_manager (admin_only (edit_post_view post_id sub))"

definition delete_post :: "int \<Rightarrow> view" where
  "delete_post post_id = login_required login_manager (admin_only (delete_post_view post_id))"

definition about :: view where
  "about d se = (d, se, Render About_html)"

definition contact :: view where
  "contact d se = (d, se, Render Contact_html)"

section \<open>Requests and reachable states\<close>

datatype request =
    Get_all_posts
  | Register string "register_form option"
  | Login "login_form option"
  | Logout
  | Show_post int "comment_form option"
  | Add_new_post string "create_post_form option"
  | Edit_post int "create_post_form option"
  | Delete_post int
  | About
  | Contact

fun handle :: "werkzeug \<Rightarrow> request \<Rightarrow> view" where
  "handle w Get_all_posts = get_all_posts"
| "handle w (Register salt sub) = register w salt sub"
| "handle w (Login sub) = login w sub"
| "handle w Logout = logout"
| "handle w (Show_post post_id sub) = show_post post_id sub"
| "handle w (Add_new_post today sub) = add_new_post today sub"
| "handle w (Edit_post post_id sub) = edit_post post_id sub"
| "handle w (Delete_post post_id) = delete_post post_id"
| "handle w About = about"
| "handle w Contact = contact"

text \<open>
  The application serves any number of browsers, each with a session of its own, over
  one store. A step is one request of one browser.
\<close>

type_synonym world = "db \<times> (nat \<Rightarrow> session)"

definition world_empty :: world where
  "world_empty = (db_empty, \<lambda>browser. session_empty)"

definition step :: "werkzeug \<Rightarrow> nat \<times> request \<Rightarrow> world \<Rightarrow> world" where
  "step w br wd =
     (case br of (browser, req) \<Rightarrow>
        case wd of (d, ss) \<Rightarrow>
          case handle w req d (ss browser) of (d', se', r) \<Rightarrow> (d', ss(browser := se')))"

fun run :: "werkzeug \<Rightarrow> (nat \<times> request) list \<Rightarrow> world \<Rightarrow> world" where
  "run w [] wd = wd"
| "run w (br # brs) wd = run w brs (step w br wd)"

inductive reachable :: "werkzeug \<Rightarrow> world \<Rightarrow> bool" for w :: werkzeug where
  reachable_empty: "reachable w world_empty"
| reachable_step: "reachable w wd \<Longrightarrow> reachable w (step w br wd)"

section \<open>Properties of the store\<close>

text \<open>
  \<open>author_exists d r\<close> and \<open>post_exists d r\<close>: the foreign key \<open>r\<close> is the id of a row of
  \<^verbatim>\<open>users\<close>, of \<^verbatim>\<open>blog_posts\<close>. A NULL key is the id of no row. \<open>references_exist\<close> asks
  this of every foreign key in the store; \<open>references_exist_or_null\<close> lets a comment's
  \<^verbatim>\<open>post_id\<close> also be NULL.
\<close>

definition emails_distinct :: "db \<Rightarrow> bool" where
  "emails_distinct d = distinct (map u_email (users d))"

definition author_exists :: "db \<Rightarrow> int option \<Rightarrow> bool" where
  "author_exists d r = (r \<in> Some ` u_id ` set (users d))"

definition post_exists :: "db \<Rightarrow> int option \<Rightarrow> bool" where
  "post_exists d r = (r \<in> Some ` p_id ` set (blog_posts d))"

definition references_exist :: "db \<Rightarrow> bool" where
  "references_exist d =
     ((\<forall>c \<in> set (comments d). author_exists d (c_author_id c) \<and> post_exists d (c_post_id c)) \<and>
      (\<forall>p \<in> set (blog_posts d). author_exists d (p_author_id p)))"

definition references_exist_or_null :: "db \<Rightarrow> bool" where
  "references_exist_or_null d =
     ((\<forall>c \<in> set (comments d). author_exists d (c_author_id c) \<and>
          (c_post_id c = None \<or> post_exists d (c_post_id c))) \<and>
      (\<forall>p \<in> set (blog_posts d). author_exists d (p_author_id p)))"

section \<open>A concrete store\<close>

text \<open>
  Concrete inputs on which the model is evaluated. \<open>toy_werkzeug\<close> stands in for the
  library: its hash is the salt, a dollar sign and the password itself. The first user
  to register receives id 1 and thereby is the administrator.
\<close>

definition toy_werkzeug :: werkzeug where
  "toy_werkzeug = \<lparr>generate_password_hash = (\<lambda>salt password. salt @ CHR ''$'' # password),
     check_password_hash = (\<lambda>pwhash password.
        dropWhile (\<lambda>c. c \<noteq> CHR ''$'') pwhash = CHR ''$'' # password)\<rparr>"

definition alice :: register_form where
  "alice = \<lparr>rf_name = ''Alice'', rf_email = ''a@x.com'', rf_password = ''pw123''\<rparr>"

definition bob :: register_form where
  "bob = \<lparr>rf_name = ''Bob'', rf_email = ''b@x.com'', rf_password = ''hunter2''\<rparr>"

definition hello :: create_post_form where
  "hello = \<lparr>f_title = ''Hello'', f_subtitle = ''first'', f_img_url = ''http://x/i.png'',
     f_body = ''body''\<rparr>"

definition trace_two_users :: "(nat \<times> request) list" where
  "trace_two_users = [(0, Register ''s1'' (Some alice)), (1, Register ''s2'' (Some bob))]"

definition trace_blog :: "(nat \<times> request) list" where
  "trace_blog = trace_two_users @
     [(0, Add_new_post ''November 03, 2026'' (Some hello)),
      (0, Add_new_post ''November 04, 2026'' (Some hello)),
      (1, Show_post 1 (Some \<lparr>comment_text = ''nice''\<rparr>)),
      (0, Show_post 2 (Some \<lparr>comment_text = ''thanks''\<rparr>))]"

definition alice_user :: user where
  "alice_user = \<lparr>u_id = 1, u_name = ''Alice'', u_email = ''a@x.com'', u_password = ''s1$pw123''\<rparr>"

definition bob_user :: user where
  "bob_user = \<lparr>u_id = 2, u_name = ''Bob'', u_email = ''b@x.com'', u_password = ''s2$hunter2''\<rparr>"

definition blog_db :: db where
  "blog_db =
     \<lparr>users = [alice_user, bob_user],
      blog_posts =
        [\<lparr>p_id = 1, p_title = ''Hello'', p_subtitle = ''first'',
           p_date = ''November 03, 2026'', p_body = ''body'',
           p_img_url = ''http://x/i.png'', p_author_id = Some 1\<rparr>,
         \<lparr>p_id = 2, p_title = ''Hello'', p_subtitle = ''first'',
           p_date = ''November 04, 2026'', p_body = ''body'',
           p_img_url = ''http://x/i.png'', p_author_id = Some 1\<rparr>],
      comments =
        [\<lparr>c_id = 1, c_text = ''nice'', c_post_id = Some 1, c_author_id = Some 2\<rparr>,
         \<lparr>c_id = 2, c_text = ''thanks'', c_post_id = Some 2, c_author_id = Some 1\<rparr>],
      users_seq = 3, blog_posts_seq = 3, comments_seq = 3\<rparr>"

definition session_of :: "int \<Rightarrow> session" where
  "session_of user_id = \<lparr>s_user_id = Some user_id, s_flashes = []\<rparr>"

definition trace_deleted :: "(nat \<times> request) list" where
  "trace_deleted = trace_blog @ [(0, Delete_post 1)]"

definition trace_orphan :: "(nat \<times> request) list" where
  "trace_orphan = [(0, Register ''s1'' (Some alice)),
     (0, Show_post 7 (Some \<lparr>comment_text = ''hello?''\<rparr>))]"

definition edited :: create_post_form where
  "edited = \<lparr>f_title = ''Hello again'', f_subtitle = ''second'', f_img_url = ''http://x/j.png'',
     f_body = ''new body''\<rparr>"

definition long_title :: create_post_form where
  "long_title = \<lparr>f_title = replicate 251 CHR ''a'', f_subtitle = ''second'',
     f_img_url = ''http://x/j.png'', f_body = ''new body''\<rparr>"

definition nul_text :: comment_form where
  "nul_text = \<lparr>comment_text = [CHR ''a'', CHR 0x00, CHR ''b'']\<rparr>"

section \<open>Evaluation\<close>

lemmas view_defs = get_all_posts_def register_def login_def logout_def show_post_def
  add_new_post_view_def edit_post_view_def delete_post_view_def add_new_post_def
  edit_post_def delete_post_def about_def contact_def login_required_def admin_only_def
  unauthorized_def login_manager_def current_user_def load_user_def flash_def
  login_user_def logout_user_def commit_error_def has_nul_def too_long_def

lemmas example_defs = toy_werkzeug_def alice_def bob_def hello_def trace_two_users_def
  trace_blog_def world_empty_def db_empty_def session_empty_def step_def alice_user_def
  bob_user_def

lemma run_trace_blog: "fst (run toy_werkzeug trace_blog world_empty) = blog_db"
  by (simp add: example_defs view_defs blog_db_def)

lemma current_user_alice: "current_user blog_db (session_of 1) = Authenticated alice_user"
  by (simp add: current_user_def load_user_def session_of_def blog_db_def alice_user_def)

lemma current_user_bob: "current_user blog_db (session_of 2) = Authenticated bob_user"
  by (simp add: current_user_def load_user_def session_of_def blog_db_def alice_user_def
      bob_user_def)

lemma current_user_nobody: "current_user d session_empty = Anonymous"
  by (simp add: current_user_def session_empty_def)

lemma commit_error_text:
  "commit_error [] [t] = (if has_nul t then Some ValueError else None)"
  by (simp add: commit_error_def)

lemma commit_error_accepts:
  "\<forall>s \<in> set (strings @ texts). \<not> has_nul s \<Longrightarrow> \<forall>s \<in> set strings. \<not> too_long s \<Longrightarrow>
   commit_error strings texts = None"
  by (simp add: commit_error_def)

section \<open>The guard of the admin routes\<close>

lemma guard_anonymous:
  "current_user d se = Anonymous \<Longrightarrow>
   login_required login_manager (admin_only func) d se = (d, se, Abort 401)"
  by (simp add: login_required_def login_manager_def unauthorized_def)

lemma guard_forbidden:
  "current_user d se = Authenticated u \<Longrightarrow> u_id u \<noteq> 1 \<Longrightarrow>
   login_required lm (admin_only func) d se = (d, se, Abort 403)"
  by (simp add: login_required_def admin_only_def)

lemma guard_admin:
  "current_user d se = Authenticated u \<Longrightarrow> u_id u = 1 \<Longrightarrow>
   login_required lm (admin_only func) d se = func d se"
  by (simp add: login_required_def admin_only_def)

text \<open>
  Claim C1, as the code has it. On the create-post, edit-post and delete-post routes an
  anonymous requester is answered with HTTP 401 (the login manager has no login view to
  redirect to); an authenticated requester whose id is not 1 is answered with HTTP 403.
  In both cases the store and the session are returned as they were, whatever the
  decorated view is (\<open>guard_anonymous\<close> and \<open>guard_forbidden\<close> hold for every \<open>func\<close>),
  so the view does not run. For the authenticated user with id 1 the route is the view.
\<close>

theorem admin_routes_guard:
  "(current_user d se = Anonymous \<longrightarrow>
      add_new_post today sub d se = (d, se, Abort 401) \<and>
      edit_post post_id sub d se = (d, se, Abort 401) \<and>
      delete_post post_id d se = (d, se, Abort 401)) \<and>
   (current_user d se = Authenticated u \<and> u_id u \<noteq> 1 \<longrightarrow>
      add_new_post today sub d se = (d, se, Abort 403) \<and>
      edit_post post_id sub d se = (d, se, Abort 403) \<and>
      delete_post post_id d se = (d, se, Abort 403)) \<and>
   (current_user d se = Authenticated u \<and> u_id u = 1 \<longrightarrow>
      add_new_post today sub d se = add_new_post_view today sub d se \<and>
      edit_post post_id sub d se = edit_post_view post_id sub d se \<and>
      delete_post post_id d se = delete_post_view post_id d se)"
  unfolding add_new_post_def edit_post_def delete_post_def
  by (simp add: guard_anonymous guard_forbidden guard_admin)

theorem admin_routes_guard_witness:
  "delete_post 1 blog_db session_empty = (blog_db, session_empty, Abort 401) \<and>
   delete_post 1 blog_db (session_of 2) = (blog_db, session_of 2, Abort 403) \<and>
   delete_post 1 blog_db (session_of 1) = delete_post_view 1 blog_db (session_of 1) \<and>
   blog_posts (fst (delete_post 1 blog_db (session_of 1))) = [blog_posts blog_db ! 1]"
proof -
  have bob: "current_user blog_db (session_of 2) = Authenticated bob_user \<and> u_id bob_user \<noteq> 1"
    by (simp add: current_user_bob) (simp add: bob_user_def)
  have alice: "current_user blog_db (session_of 1) = Authenticated alice_user \<and> u_id alice_user = 1"
    by (simp add: current_user_alice) (simp add: alice_user_def)
  have deleted: "blog_posts (fst (delete_post_view 1 blog_db (session_of 1))) = [blog_posts blog_db ! 1]"
    by (simp add: delete_post_view_def blog_db_def)
  from admin_routes_guard [of blog_db session_empty "[]" None 1 alice_user]
    admin_routes_guard [of blog_db "session_of 2" "[]" None 1 bob_user]
    admin_routes_guard [of blog_db "session_of 1" "[]" None 1 alice_user]
    current_user_nobody [of blog_db] bob alice deleted
  show ?thesis by simp
qed

text \<open>
  Claim C1 as it is written fails for the anonymous requester: the response is
  \<^verbatim>\<open>abort(401)\<close>, not a redirect to the login view.
\<close>

theorem anonymous_admin_request_counterexample:
  "current_user db_empty session_empty = Anonymous \<and>
   add_new_post ''November 03, 2026'' None db_empty session_empty
     = (db_empty, session_empty, Abort 401) \<and>
   add_new_post ''November 03, 2026'' None db_empty session_empty
     \<noteq> (db_empty, session_empty, Redirect Url_login)"
  by (simp add: add_new_post_def login_required_def login_manager_def unauthorized_def
      current_user_def session_empty_def)

section \<open>Showing a post and commenting\<close>

lemma find_post_absent:
  "post_id \<notin> p_id ` set (blog_posts d) \<Longrightarrow>
   find (\<lambda>p. p_id p = post_id) (blog_posts d) = None"
  by (auto simp: find_None_iff)

text \<open>
  Claim C4, as the code has it. For a post id that no row of the store has, \<^verbatim>\<open>show_post\<close>
  never answers Not Found (404): it goes on with \<^verbatim>\<open>requested_post = None\<close>. Its response
  is the post template rendered with no post and the store's comments, the redirect
  to the login view of an anonymous comment submission, or the \<^verbatim>\<open>ValueError\<close> of a
  comment text that the store refuses; without a valid submission it renders and
  changes nothing.
\<close>

theorem show_post_absent_proceeds:
  "post_id \<notin> p_id ` set (blog_posts d) \<Longrightarrow>
   snd (snd (show_post post_id sub d se)) \<noteq> Abort 404 \<and>
   snd (snd (show_post post_id sub d se))
     \<in> {Render (Post_html None (comments d)), Redirect Url_login, Unhandled ValueError} \<and>
   show_post post_id None d se = (d, se, Render (Post_html None (comments d)))"
  by (simp add: show_post_def find_post_absent Let_def commit_error_text
      split: option.splits identity.splits)

theorem show_post_absent_proceeds_witness:
  "(3::int) \<notin> p_id ` set (blog_posts blog_db) \<and>
   snd (snd (show_post 3 None blog_db (session_of 2))) \<noteq> Abort 404 \<and>
   show_post 3 None blog_db (session_of 2)
     = (blog_db, session_of 2, Render (Post_html None (comments blog_db)))"
proof -
  have absent: "(3::int) \<notin> p_id ` set (blog_posts blog_db)"
    by (simp add: blog_db_def)
  from show_post_absent_proceeds [OF absent, of None "session_of 2"] absent
  show ?thesis by simp
qed

text \<open>
  Claim C4 as it is written fails: on the empty store, a GET of post 7 is answered with
  the rendered template and \<^verbatim>\<open>post=None\<close>, not with Not Found.
\<close>

theorem show_post_absent_counterexample:
  "(7::int) \<notin> p_id ` set (blog_posts db_empty) \<and>
   show_post 7 None db_empty session_empty
     = (db_empty, session_empty, Render (Post_html None [])) \<and>
   snd (snd (show_post 7 None db_empty session_empty)) \<noteq> Abort 404"
  by (simp add: show_post_def db_empty_def)



text \<open>
  Claim C7. Whenever \<^verbatim>\<open>show_post\<close> renders, the comment list it passes to the template is
  the whole \<^verbatim>\<open>comments\<close> table as the request found it, whatever the requested id is.
  The only responses that render nothing are the redirect of an anonymous submission
  and the \<^verbatim>\<open>ValueError\<close> of an authenticated submission whose text the store refuses.
\<close>

theorem show_post_lists_all_comments:
  "(\<exists>post. snd (snd (show_post post_id sub d se)) = Render (Post_html post (comments d))) \<or>
   (sub \<noteq> None \<and> current_user d se = Anonymous \<and>
    snd (snd (show_post post_id sub d se)) = Redirect Url_login) \<or>
   (\<exists>form u. sub = Some form \<and> has_nul (comment_text form) \<and>
      current_user d se = Authenticated u \<and>
      snd (snd (show_post post_id sub d se)) = Unhandled ValueError)"
  by (simp add: show_post_def Let_def commit_error_text
      split: option.splits identity.splits)

theorem show_post_lists_all_comments_witness:
  "snd (snd (show_post 1 None blog_db session_empty))
     = Render (Post_html (find (\<lambda>p. p_id p = 1) (blog_posts blog_db))
        [\<lparr>c_id = 1, c_text = ''nice'', c_post_id = Some 1, c_author_id = Some 2\<rparr>,
         \<lparr>c_id = 2, c_text = ''thanks'', c_post_id = Some 2, c_author_id = Some 1\<rparr>])"
  using show_post_lists_all_comments [of 1 None blog_db session_empty]
  by (simp add: blog_db_def show_post_def)

text \<open>
  Claim C10, as the code has it. An authenticated user's valid comment submission at a
  post id that no row has, with a text that holds no NUL character, does not fail in
  the view: it appends a comment whose \<^verbatim>\<open>post_id\<close> is NULL, written by the current user,
  and renders the post template with no post.
\<close>

theorem comment_on_absent_post:
  "current_user d se = Authenticated u \<Longrightarrow> post_id \<notin> p_id ` set (blog_posts d) \<Longrightarrow>
   \<not> has_nul (comment_text form) \<Longrightarrow>
   show_post post_id (Some form) d se
     = (d\<lparr>comments := comments d @
            [\<lparr>c_id = comments_seq d, c_text = comment_text form, c_post_id = None,
              c_author_id = Some (u_id u)\<rparr>],
          comments_seq := comments_seq d + 1\<rparr>,
        se, Render (Post_html None (comments d)))"
  by (simp add: show_post_def find_post_absent commit_error_text)

theorem comment_on_absent_post_witness:
  "current_user blog_db (session_of 2) = Authenticated bob_user \<and>
   (3::int) \<notin> p_id ` set (blog_posts blog_db) \<and>
   \<not> has_nul (comment_text \<lparr>comment_text = ''lost''\<rparr>) \<and>
   show_post 3 (Some \<lparr>comment_text = ''lost''\<rparr>) blog_db (session_of 2)
     = (blog_db\<lparr>comments := comments blog_db @
            [\<lparr>c_id = 3, c_text = ''lost'', c_post_id = None, c_author_id = Some 2\<rparr>],
          comments_seq := 4\<rparr>,
        session_of 2, Render (Post_html None (comments blog_db)))"
proof -
  have absent: "(3::int) \<notin> p_id ` set (blog_posts blog_db)"
    by (simp add: blog_db_def)
  have clean: "\<not> has_nul (comment_text \<lparr>comment_text = ''lost''\<rparr>)"
    by (simp add: has_nul_def)
  from comment_on_absent_post [OF current_user_bob absent clean] current_user_bob absent clean
  show ?thesis by (simp add: blog_db_def bob_user_def)
qed

text \<open>
  Claim C10 as it is written fails: for the authenticated second user, the absent post
  id 3 and a comment text that holds the NUL character, the commit raises
  \<^verbatim>\<open>ValueError\<close>; the store is as before, no comment is persisted and no page is rendered.
\<close>

theorem comment_on_absent_post_counterexample:
  "current_user blog_db (session_of 2) = Authenticated bob_user \<and>
   (3::int) \<notin> p_id ` set (blog_posts blog_db) \<and>
   show_post 3 (Some nul_text) blog_db (session_of 2)
     = (blog_db, session_of 2, Unhandled ValueError)"
proof -
  have "find (\<lambda>p. p_id p = 3) (blog_posts blog_db) = None"
    by (simp add: blog_db_def)
  then show ?thesis
    by (simp add: current_user_bob show_post_def commit_error_text has_nul_def nul_text_def)
      (simp add: blog_db_def)
qed

section \<open>Logging in\<close>

lemma find_user_by_id:
  "u \<in> set us \<Longrightarrow> \<exists>u'. find (\<lambda>x. u_id x = u_id u) us = Some u' \<and> u_id u' = u_id u"
  by (cases "find (\<lambda>x. u_id x = u_id u) us") (auto simp: find_None_iff find_Some_iff)

lemma current_user_after_login:
  "u \<in> set (users d) \<Longrightarrow>
   \<exists>u'. current_user d (login_user u se) = Authenticated u' \<and> u_id u' = u_id u"
  using find_user_by_id [of u "users d"]
  by (auto simp: current_user_def login_user_def load_user_def)

text \<open>
  Claim C6. For a valid login submission: when no user has the submitted email, the
  notice that the email does not exist is flashed and the response redirects to the
  login view; when the first user with that email is \<open>u\<close> and the password does not
  verify against \<open>u\<close>'s stored hash, the notice that the password is incorrect is flashed
  and the response redirects to the login view; when it verifies, the session holds
  \<open>u\<close>'s id (so the current user is a user with that id) and the response redirects to
  the post list. The store is unchanged in all three cases.
\<close>

theorem login_cases:
  "((\<forall>u \<in> set (users d). u_email u \<noteq> lf_email form) \<longrightarrow>
      login w (Some form) d se
        = (d, se\<lparr>s_flashes := s_flashes se @ [''That email does not exist, please try again.'']\<rparr>,
           Redirect Url_login)) \<and>
   (find (\<lambda>u. u_email u = lf_email form) (users d) = Some u \<and>
    \<not> check_password_hash w (u_password u) (lf_password form) \<longrightarrow>
      login w (Some form) d se
        = (d, se\<lparr>s_flashes := s_flashes se @ [''Password incorrect, please try again.'']\<rparr>,
           Redirect Url_login)) \<and>
   (find (\<lambda>u. u_email u = lf_email form) (users d) = Some u \<and>
    check_password_hash w (u_password u) (lf_password form) \<longrightarrow>
      login w (Some form) d se
        = (d, se\<lparr>s_user_id := Some (u_id u)\<rparr>, Redirect Url_get_all_posts) \<and>
      (\<exists>u'. current_user d (se\<lparr>s_user_id := Some (u_id u)\<rparr>) = Authenticated u' \<and>
            u_id u' = u_id u))"
proof (intro conjI impI)
  assume "\<forall>u \<in> set (users d). u_email u \<noteq> lf_email form"
  then have "find (\<lambda>u. u_email u = lf_email form) (users d) = None"
    by (simp add: find_None_iff)
  then show "login w (Some form) d se
        = (d, se\<lparr>s_flashes := s_flashes se @ [''That email does not exist, please try again.'']\<rparr>,
           Redirect Url_login)"
    by (simp add: login_def flash_def)
next
  assume "find (\<lambda>u. u_email u = lf_email form) (users d) = Some u \<and>
    \<not> check_password_hash w (u_password u) (lf_password form)"
  then show "login w (Some form) d se
        = (d, se\<lparr>s_flashes := s_flashes se @ [''Password incorrect, please try again.'']\<rparr>,
           Redirect Url_login)"
    by (simp add: login_def flash_def)
next
  assume ok: "find (\<lambda>u. u_email u = lf_email form) (users d) = Some u \<and>
    check_password_hash w (u_password u) (lf_password form)"
  then show "login w (Some form) d se
        = (d, se\<lparr>s_user_id := Some (u_id u)\<rparr>, Redirect Url_get_all_posts)"
    by (simp add: login_def login_user_def)
  from ok have "u \<in> set (users d)"
    by (auto simp: find_Some_iff in_set_conv_nth)
  from current_user_after_login [OF this, of se]
  show "\<exists>u'. current_user d (se\<lparr>s_user_id := Some (u_id u)\<rparr>) = Authenticated u' \<and>
            u_id u' = u_id u"
    by (simp add: login_user_def)
qed

theorem login_cases_witness:
  "login toy_werkzeug (Some \<lparr>lf_email = ''c@x.com'', lf_password = ''pw''\<rparr>) blog_db session_empty
     = (blog_db,
        \<lparr>s_user_id = None, s_flashes = [''That email does not exist, please try again.'']\<rparr>,
        Redirect Url_login) \<and>
   login toy_werkzeug (Some \<lparr>lf_email = ''b@x.com'', lf_password = ''pw''\<rparr>) blog_db session_empty
     = (blog_db,
        \<lparr>s_user_id = None, s_flashes = [''Password incorrect, please try again.'']\<rparr>,
        Redirect Url_login) \<and>
   login toy_werkzeug (Some \<lparr>lf_email = ''b@x.com'', lf_password = ''hunter2''\<rparr>) blog_db
       session_empty
     = (blog_db, \<lparr>s_user_id = Some 2, s_flashes = []\<rparr>, Redirect Url_get_all_posts)"
proof -
  have absent: "\<forall>u \<in> set (users blog_db). u_email u \<noteq> ''c@x.com''"
    by (simp add: blog_db_def alice_user_def bob_user_def)
  have found: "find (\<lambda>u. u_email u = ''b@x.com'') (users blog_db) = Some bob_user"
    by (simp add: blog_db_def alice_user_def bob_user_def)
  have wrong: "\<not> check_password_hash toy_werkzeug (u_password bob_user) ''pw''"
    by (simp add: toy_werkzeug_def bob_user_def)
  have right: "check_password_hash toy_werkzeug (u_password bob_user) ''hunter2''"
    by (simp add: toy_werkzeug_def bob_user_def)
  from login_cases [of blog_db "\<lparr>lf_email = ''c@x.com'', lf_password = ''pw''\<rparr>"
      toy_werkzeug session_empty bob_user]
    login_cases [of blog_db "\<lparr>lf_email = ''b@x.com'', lf_password = ''pw''\<rparr>"
      toy_werkzeug session_empty bob_user]
    login_cases [of blog_db "\<lparr>lf_email = ''b@x.com'', lf_password = ''hunter2''\<rparr>"
      toy_werkzeug session_empty bob_user]
    absent found wrong right
  show ?thesis by (simp add: session_empty_def bob_user_def)
qed

section \<open>Runs and what every view keeps\<close>

lemma reachable_run: "reachable w wd \<Longrightarrow> reachable w (run w brs wd)"
proof (induction brs arbitrary: wd)
  case Nil
  then show ?case by simp
next
  case (Cons br brs)
  from Cons.prems have "reachable w (step w br wd)" by (rule reachable_step)
  then show ?case by (simp add: Cons.IH)
qed

lemma current_user_in_users:
  "current_user d se = Authenticated u \<Longrightarrow> u \<in> set (users d)"
  by (auto simp: current_user_def load_user_def find_Some_iff split: option.splits)

lemma find_post_in_posts:
  "find (\<lambda>p. p_id p = post_id) ps = Some post \<Longrightarrow> post \<in> set ps \<and> p_id post = post_id"
  by (auto simp: find_Some_iff)

section \<open>Registration and the emails of the users\<close>

lemma guard_users:
  assumes "\<And>d se. users (fst (func d se)) = users d"
  shows "users (fst (login_required lm (admin_only func) d se)) = users d"
  using assms by (simp add: login_required_def admin_only_def split: identity.splits)

lemma add_new_post_view_users: "users (fst (add_new_post_view today sub d se)) = users d"
  by (simp add: add_new_post_view_def split: option.splits identity.splits)

lemma edit_post_view_users: "users (fst (edit_post_view post_id sub d se)) = users d"
  by (simp add: edit_post_view_def split: option.splits identity.splits)

lemma delete_post_view_users: "users (fst (delete_post_view post_id d se)) = users d"
  by (simp add: delete_post_view_def split: option.splits)

lemma show_post_users: "users (fst (show_post post_id sub d se)) = users d"
  by (simp add: show_post_def Let_def split: option.splits identity.splits)

lemma login_users: "users (fst (login w sub d se)) = users d"
  by (simp add: login_def split: option.splits)

lemma register_emails:
  "emails_distinct d \<Longrightarrow> emails_distinct (fst (register w salt sub d se))"
  by (auto simp: register_def emails_distinct_def Let_def find_None_iff
      split: option.splits)

lemma handle_emails:
  "emails_distinct d \<Longrightarrow> emails_distinct (fst (handle w req d se))"
proof (cases req)
  case (Register salt sub)
  then show "emails_distinct d \<Longrightarrow> ?thesis" by (simp add: register_emails)
next
  case (Add_new_post today sub)
  then show "emails_distinct d \<Longrightarrow> ?thesis"
    by (simp add: emails_distinct_def add_new_post_def guard_users add_new_post_view_users)
next
  case (Edit_post post_id sub)
  then show "emails_distinct d \<Longrightarrow> ?thesis"
    by (simp add: emails_distinct_def edit_post_def guard_users edit_post_view_users)
next
  case (Delete_post post_id)
  then show "emails_distinct d \<Longrightarrow> ?thesis"
    by (simp add: emails_distinct_def delete_post_def guard_users delete_post_view_users)
qed (simp_all add: emails_distinct_def get_all_posts_def login_users logout_def
      show_post_users about_def contact_def)

lemma step_fst: "fst (step w (browser, req) wd) = fst (handle w req (fst wd) (snd wd browser))"
  by (simp add: step_def split: prod.splits)

lemma reachable_emails: "reachable w wd \<Longrightarrow> emails_distinct (fst wd)"
proof (induction rule: reachable.induct)
  case reachable_empty
  show ?case by (simp add: world_empty_def db_empty_def emails_distinct_def)
next
  case (reachable_step wd br)
  then show ?case by (cases br) (simp add: step_fst handle_emails)
qed

text \<open>
  Claim C3. When some user already has the submitted email, a valid registration
  returns the store as it was (no user is created), appends the notice to the session's
  pending messages and redirects to the login view. Registration being the only view
  that adds a user, no two users of a reachable store share an email.
\<close>

theorem register_existing_email:
  "((\<exists>u \<in> set (users d). u_email u = rf_email form) \<longrightarrow>
      register w salt (Some form) d se
        = (d, se\<lparr>s_flashes := s_flashes se @
                [''You've already signed up with that email, log in instead!'']\<rparr>,
           Redirect Url_login)) \<and>
   (reachable w wd \<longrightarrow> distinct (map u_email (users (fst wd))))"
proof (intro conjI impI)
  assume "\<exists>u \<in> set (users d). u_email u = rf_email form"
  then have "find (\<lambda>u. u_email u = rf_email form) (users d) \<noteq> None"
    by (auto simp: find_None_iff)
  then show "register w salt (Some form) d se
        = (d, se\<lparr>s_flashes := s_flashes se @
                [''You've already signed up with that email, log in instead!'']\<rparr>,
           Redirect Url_login)"
    by (auto simp: register_def flash_def Let_def)
next
  assume "reachable w wd"
  then have "emails_distinct (fst wd)" by (rule reachable_emails)
  then show "distinct (map u_email (users (fst wd)))" by (simp add: emails_distinct_def)
qed

theorem register_existing_email_witness:
  "register toy_werkzeug ''s3'' (Some bob) blog_db session_empty
     = (blog_db,
        \<lparr>s_user_id = None,
          s_flashes = [''You've already signed up with that email, log in instead!'']\<rparr>,
        Redirect Url_login) \<and>
   distinct (map u_email (users (fst (run toy_werkzeug trace_blog world_empty))))"
proof -
  have taken: "\<exists>u \<in> set (users blog_db). u_email u = rf_email bob"
    by (simp add: blog_db_def bob_def bob_user_def)
  have reached: "reachable toy_werkzeug (run toy_werkzeug trace_blog world_empty)"
    by (rule reachable_run [OF reachable_empty])
  from register_existing_email [of blog_db bob toy_werkzeug "''s3''" session_empty
      "run toy_werkzeug trace_blog world_empty"] taken reached
  show ?thesis by (simp add: session_empty_def)
qed

section \<open>Foreign keys in reachable stores\<close>

lemma guard_preserves:
  assumes "\<And>u. current_user d se = Authenticated u \<Longrightarrow> P d \<Longrightarrow> P (fst (func d se))"
  shows "P d \<Longrightarrow> P (fst (login_required lm (admin_only func) d se))"
  using assms by (simp add: login_required_def admin_only_def split: identity.splits)

lemma author_exists_current:
  "current_user d se = Authenticated u \<Longrightarrow> u_id u \<in> u_id ` set (users d)"
  by (simp add: current_user_in_users)

lemma image_map_same: "(\<And>x. f (g x) = f x) \<Longrightarrow> f ` set (map g xs) = f ` set xs"
  by (simp add: image_image)

lemma register_references:
  "references_exist_or_null d \<Longrightarrow> references_exist_or_null (fst (register w salt sub d se))"
  unfolding references_exist_or_null_def author_exists_def post_exists_def
  by (simp add: register_def Let_def split: option.splits)

lemma show_post_references:
  "references_exist_or_null d \<Longrightarrow> references_exist_or_null (fst (show_post post_id sub d se))"
proof (cases sub)
  case None
  then show "references_exist_or_null d \<Longrightarrow> ?thesis" by (simp add: show_post_def)
next
  case (Some form)
  assume inv: "references_exist_or_null d"
  show ?thesis
  proof (cases "current_user d se")
    case Anonymous
    with Some inv show ?thesis by (simp add: show_post_def)
  next
    case (Authenticated u)
    then have author: "author_exists d (Some (u_id u))"
      by (simp add: author_exists_def author_exists_current)
    have post: "map_option p_id (find (\<lambda>p. p_id p = post_id) (blog_posts d)) = None \<or>
        post_exists d (map_option p_id (find (\<lambda>p. p_id p = post_id) (blog_posts d)))"
      by (cases "find (\<lambda>p. p_id p = post_id) (blog_posts d)")
        (auto simp: post_exists_def dest: find_post_in_posts)
    from inv author post Some Authenticated show ?thesis
      unfolding references_exist_or_null_def
      by (simp add: show_post_def Let_def author_exists_def post_exists_def
          split: option.splits)
  qed
qed

lemma add_new_post_view_references:
  "current_user d se = Authenticated u \<Longrightarrow> references_exist_or_null d \<Longrightarrow>
   references_exist_or_null (fst (add_new_post_view today sub d se))"
  unfolding references_exist_or_null_def author_exists_def post_exists_def
  by (cases sub)
    (auto simp: add_new_post_view_def Let_def dest: current_user_in_users split: option.splits)

lemma edit_post_view_references:
  "current_user d se = Authenticated u \<Longrightarrow> references_exist_or_null d \<Longrightarrow>
   references_exist_or_null (fst (edit_post_view post_id sub d se))"
proof -
  assume cu: "current_user d se = Authenticated u" and inv: "references_exist_or_null d"
  show ?thesis
  proof (cases "find (\<lambda>p. p_id p = post_id) (blog_posts d)")
    case None
    with inv show ?thesis by (simp add: edit_post_view_def)
  next
    case (Some post)
    show ?thesis
    proof (cases sub)
      case None
      with Some inv show ?thesis by (simp add: edit_post_view_def)
    next
      case (Some edit_form)
      let ?upd = "\<lambda>p. if p_id p = p_id post
                                   then p\<lparr>p_title := f_title edit_form,
                                          p_subtitle := f_subtitle edit_form,
                                          p_img_url := f_img_url edit_form,
                                          p_author_id := Some (u_id u),
                                          p_body := f_body edit_form\<rparr>
                                   else p"
      have ids: "p_id ` set (map ?upd (blog_posts d)) = p_id ` set (blog_posts d)"
        by (rule image_map_same) simp
      have authors: "\<forall>p \<in> set (map ?upd (blog_posts d)). author_exists d (p_author_id p)"
        using inv cu
        by (auto simp: references_exist_or_null_def author_exists_def
            dest: current_user_in_users)
      from inv ids authors cu \<open>find (\<lambda>p. p_id p = post_id) (blog_posts d) = Some post\<close> Some
      show ?thesis
        unfolding references_exist_or_null_def author_exists_def post_exists_def
        by (simp add: edit_post_view_def split: option.splits)
    qed
  qed
qed

lemma delete_post_view_references:
  "references_exist_or_null d \<Longrightarrow>
   references_exist_or_null (fst (delete_post_view post_id d se))"
proof (cases "find (\<lambda>p. p_id p = post_id) (blog_posts d)")
  case None
  then show "references_exist_or_null d \<Longrightarrow> ?thesis" by (simp add: delete_post_view_def)
next
  case (Some post_to_delete)
  assume inv: "references_exist_or_null d"
  have kept: "p_id ` set (filter (\<lambda>p. p_id p \<noteq> p_id post_to_delete) (blog_posts d))
      = p_id ` set (blog_posts d) - {p_id post_to_delete}"
    by auto
  from inv Some show ?thesis
    unfolding references_exist_or_null_def author_exists_def post_exists_def
    by (auto simp: delete_post_view_def kept)
qed

lemma handle_references:
  "references_exist_or_null d \<Longrightarrow> references_exist_or_null (fst (handle w req d se))"
proof (cases req)
  case (Register salt sub)
  then show "references_exist_or_null d \<Longrightarrow> ?thesis" by (simp add: register_references)
next
  case (Show_post post_id sub)
  then show "references_exist_or_null d \<Longrightarrow> ?thesis" by (simp add: show_post_references)
next
  case (Add_new_post today sub)
  assume "references_exist_or_null d"
  then have "references_exist_or_null
      (fst (login_required login_manager (admin_only (add_new_post_view today sub)) d se))"
    by (rule guard_preserves [rotated]) (rule add_new_post_view_references)
  with Add_new_post show ?thesis by (simp add: add_new_post_def)
next
  case (Edit_post post_id sub)
  assume "references_exist_or_null d"
  then have "references_exist_or_null
      (fst (login_required login_manager (admin_only (edit_post_view post_id sub)) d se))"
    by (rule guard_preserves [rotated]) (rule edit_post_view_references)
  with Edit_post show ?thesis by (simp add: edit_post_def)
next
  case (Delete_post post_id)
  assume "references_exist_or_null d"
  then have "references_exist_or_null
      (fst (login_required login_manager (admin_only (delete_post_view post_id)) d se))"
    by (rule guard_preserves [rotated]) (rule delete_post_view_references)
  with Delete_post show ?thesis by (simp add: delete_post_def)
next
  case (Login sub)
  then show "references_exist_or_null d \<Longrightarrow> ?thesis"
    by (simp add: login_def split: option.splits)
qed (simp_all add: get_all_posts_def logout_def about_def contact_def)

text \<open>
  Claim C9, as the code has it. In every reachable store, the author of every comment
  and of every post is the id of a user in the store, and the \<^verbatim>\<open>post_id\<close> of every
  comment is the id of a post in the store or NULL. It is NULL after a comment was
  submitted at an id that no post has, and after the comment's post was deleted.
\<close>

theorem reachable_references:
  "reachable w wd \<Longrightarrow> references_exist_or_null (fst wd)"
proof (induction rule: reachable.induct)
  case reachable_empty
  show ?case by (simp add: world_empty_def db_empty_def references_exist_or_null_def)
next
  case (reachable_step wd br)
  then show ?case by (cases br) (simp add: step_fst handle_references)
qed

lemma run_trace_deleted:
  "fst (run toy_werkzeug trace_deleted world_empty)
     = blog_db\<lparr>blog_posts := [blog_posts blog_db ! 1],
         comments := [\<lparr>c_id = 1, c_text = ''nice'', c_post_id = None, c_author_id = Some 2\<rparr>,
           \<lparr>c_id = 2, c_text = ''thanks'', c_post_id = Some 2, c_author_id = Some 1\<rparr>]\<rparr>"
  by (simp add: trace_deleted_def example_defs view_defs blog_db_def)

theorem reachable_references_witness:
  "references_exist_or_null (fst (run toy_werkzeug trace_deleted world_empty)) \<and>
   comments (fst (run toy_werkzeug trace_deleted world_empty))
     = [\<lparr>c_id = 1, c_text = ''nice'', c_post_id = None, c_author_id = Some 2\<rparr>,
        \<lparr>c_id = 2, c_text = ''thanks'', c_post_id = Some 2, c_author_id = Some 1\<rparr>]"
  using reachable_references [OF reachable_run [OF reachable_empty],
      of toy_werkzeug trace_deleted]
  by (simp add: run_trace_deleted)

text \<open>
  Claim C9 as it is written fails: once the first user has commented at post id 7 of a
  store with no posts, the store holds a comment whose parent-post reference is the id
  of no post.
\<close>

theorem comment_without_post_counterexample:
  "reachable toy_werkzeug (run toy_werkzeug trace_orphan world_empty) \<and>
   comments (fst (run toy_werkzeug trace_orphan world_empty))
     = [\<lparr>c_id = 1, c_text = ''hello?'', c_post_id = None, c_author_id = Some 1\<rparr>] \<and>
   \<not> references_exist (fst (run toy_werkzeug trace_orphan world_empty))"
proof -
  have "fst (run toy_werkzeug trace_orphan world_empty)
      = db_empty\<lparr>users := [alice_user], users_seq := 2,
          comments := [\<lparr>c_id = 1, c_text = ''hello?'', c_post_id = None, c_author_id = Some 1\<rparr>],
          comments_seq := 2\<rparr>"
    by (simp add: trace_orphan_def example_defs view_defs)
  then show ?thesis
    by (simp add: reachable_run [OF reachable_empty] references_exist_def post_exists_def)
qed

section \<open>Editing a post\<close>

lemma edit_post_view_found:
  assumes "find (\<lambda>p. p_id p = post_id) (blog_posts d) = Some post"
    and "current_user d se = Authenticated u"
    and "commit_error [f_title form, f_subtitle form, f_img_url form] [f_body form] = None"
  shows "edit_post_view post_id (Some form) d se =
     (d\<lparr>blog_posts :=
          map (\<lambda>p. if p_id p = post_id
                    then \<lparr>p_id = post_id, p_title = f_title form, p_subtitle = f_subtitle form,
                           p_date = p_date p, p_body = f_body form,
                           p_img_url = f_img_url form, p_author_id = Some (u_id u)\<rparr>
                    else p)
              (blog_posts d)\<rparr>,
      se, Redirect (Url_show_post post_id))"
proof -
  from find_post_in_posts [OF assms(1)] have same: "p_id post = post_id" ..
  have upd: "\<And>p. p_id p = post_id \<Longrightarrow>
      p\<lparr>p_title := f_title form, p_subtitle := f_subtitle form, p_img_url := f_img_url form,
         p_author_id := Some (u_id u), p_body := f_body form\<rparr>
      = \<lparr>p_id = post_id, p_title = f_title form, p_subtitle = f_subtitle form,
           p_date = p_date p, p_body = f_body form,
           p_img_url = f_img_url form, p_author_id = Some (u_id u)\<rparr>"
    by simp
  have "map (\<lambda>p. if p_id p = post_id
                    then p\<lparr>p_title := f_title form, p_subtitle := f_subtitle form,
                           p_img_url := f_img_url form,
                           p_author_id := Some (u_id u), p_body := f_body form\<rparr>
                    else p) (blog_posts d)
      = map (\<lambda>p. if p_id p = post_id
                    then \<lparr>p_id = post_id, p_title = f_title form, p_subtitle = f_subtitle form,
                           p_date = p_date p, p_body = f_body form,
                           p_img_url = f_img_url form, p_author_id = Some (u_id u)\<rparr>
                    else p) (blog_posts d)"
    by (rule map_cong) (simp_all add: upd)
  with assms same show ?thesis
    by (simp add: edit_post_view_def)
qed

text \<open>
  Claim C8, as the code has it. For the administrator (the authenticated user with id
  1), a post id that some row has and a valid submission whose title, subtitle and
  image URL have at most 250 characters and whose four fields hold no NUL character,
  \<^verbatim>\<open>edit_post\<close> redirects to that post's page and returns the session as it was. In the
  store it returns, the users, the comments and the sequences are as before and
  \<^verbatim>\<open>blog_posts\<close> has as many rows as before; its rows are the rows of before, where the
  row with the requested id has the form's title, subtitle, image URL and body and the
  current user's id as author, and keeps its id and date, and every other row is as it
  was.
\<close>

theorem edit_post_overwrites:
  assumes "current_user d se = Authenticated u" and "u_id u = 1"
    and "post_id \<in> p_id ` set (blog_posts d)"
    and "\<not> has_nul (f_title form)" and "\<not> has_nul (f_subtitle form)"
    and "\<not> has_nul (f_img_url form)" and "\<not> has_nul (f_body form)"
    and "\<not> too_long (f_title form)" and "\<not> too_long (f_subtitle form)"
    and "\<not> too_long (f_img_url form)"
  shows "\<exists>d'. edit_post post_id (Some form) d se = (d', se, Redirect (Url_show_post post_id)) \<and>
     users d' = users d \<and> comments d' = comments d \<and>
     users_seq d' = users_seq d \<and> blog_posts_seq d' = blog_posts_seq d \<and>
     comments_seq d' = comments_seq d \<and>
     length (blog_posts d') = length (blog_posts d) \<and>
     set (blog_posts d') =
       (\<lambda>p. if p_id p = post_id
             then \<lparr>p_id = post_id, p_title = f_title form, p_subtitle = f_subtitle form,
                    p_date = p_date p, p_body = f_body form,
                    p_img_url = f_img_url form, p_author_id = Some (u_id u)\<rparr>
             else p) ` set (blog_posts d)"
proof -
  from assms(3) obtain post where found: "find (\<lambda>p. p_id p = post_id) (blog_posts d) = Some post"
    by (cases "find (\<lambda>p. p_id p = post_id) (blog_posts d)") (auto simp: find_None_iff)
  have accepted: "commit_error [f_title form, f_subtitle form, f_img_url form] [f_body form] = None"
    using assms(4-10) by (simp add: commit_error_def)
  have routed: "edit_post post_id (Some form) d se = edit_post_view post_id (Some form) d se"
    unfolding edit_post_def using assms(1,2) by (rule guard_admin)
  show ?thesis
    unfolding routed edit_post_view_found [OF found assms(1) accepted]
    by (intro exI conjI) (rule refl, simp_all)
qed

theorem edit_post_overwrites_witness:
  "current_user blog_db (session_of 1) = Authenticated alice_user \<and> u_id alice_user = 1 \<and>
   (2::int) \<in> p_id ` set (blog_posts blog_db) \<and>
   \<not> has_nul (f_title edited) \<and> \<not> has_nul (f_subtitle edited) \<and>
   \<not> has_nul (f_img_url edited) \<and> \<not> has_nul (f_body edited) \<and>
   \<not> too_long (f_title edited) \<and> \<not> too_long (f_subtitle edited) \<and>
   \<not> too_long (f_img_url edited) \<and>
   (\<exists>d'. edit_post 2 (Some edited) blog_db (session_of 1)
            = (d', session_of 1, Redirect (Url_show_post 2)) \<and>
         users d' = users blog_db \<and> comments d' = comments blog_db \<and>
         set (blog_posts d') =
           {blog_posts blog_db ! 0,
            \<lparr>p_id = 2, p_title = ''Hello again'', p_subtitle = ''second'',
              p_date = ''November 04, 2026'', p_body = ''new body'',
              p_img_url = ''http://x/j.png'', p_author_id = Some 1\<rparr>})"
proof -
  have admin: "u_id alice_user = 1"
    by (simp add: alice_user_def)
  have present: "(2::int) \<in> p_id ` set (blog_posts blog_db)"
    by (simp add: blog_db_def)
  have clean: "\<not> has_nul (f_title edited)" "\<not> has_nul (f_subtitle edited)"
    "\<not> has_nul (f_img_url edited)" "\<not> has_nul (f_body edited)"
    by (simp_all add: has_nul_def edited_def)
  have short: "\<not> too_long (f_title edited)" "\<not> too_long (f_subtitle edited)"
    "\<not> too_long (f_img_url edited)"
    by (simp_all add: too_long_def edited_def)
  from edit_post_overwrites [OF current_user_alice admin present clean short]
  obtain d' where res: "edit_post 2 (Some edited) blog_db (session_of 1)
        = (d', session_of 1, Redirect (Url_show_post 2))"
    and frame: "users d' = users blog_db" "comments d' = comments blog_db"
    and rows: "set (blog_posts d') =
       (\<lambda>p. if p_id p = 2
             then \<lparr>p_id = 2, p_title = f_title edited, p_subtitle = f_subtitle edited,
                    p_date = p_date p, p_body = f_body edited,
                    p_img_url = f_img_url edited, p_author_id = Some (u_id alice_user)\<rparr>
             else p) ` set (blog_posts blog_db)"
    by blast
  from rows have "set (blog_posts d') =
           {blog_posts blog_db ! 0,
            \<lparr>p_id = 2, p_title = ''Hello again'', p_subtitle = ''second'',
              p_date = ''November 04, 2026'', p_body = ''new body'',
              p_img_url = ''http://x/j.png'', p_author_id = Some 1\<rparr>}"
    by (simp add: blog_db_def edited_def admin)
  with res frame current_user_alice admin present clean short show ?thesis
    by blast
qed

text \<open>
  Claim C8 as it is written fails: for the administrator, the existing post 2 and a
  valid submission whose title has 251 characters, the commit raises \<^verbatim>\<open>DataError\<close>; the
  post is not overwritten and the response is no redirect.
\<close>

theorem edit_post_long_title_counterexample:
  "current_user blog_db (session_of 1) = Authenticated alice_user \<and> u_id alice_user = 1 \<and>
   (2::int) \<in> p_id ` set (blog_posts blog_db) \<and>
   edit_post 2 (Some long_title) blog_db (session_of 1)
     = (blog_db, session_of 1, Unhandled DataError)"
proof -
  have admin: "u_id alice_user = 1"
    by (simp add: alice_user_def)
  have routed: "edit_post 2 (Some long_title) blog_db (session_of 1)
      = edit_post_view 2 (Some long_title) blog_db (session_of 1)"
    unfolding edit_post_def using current_user_alice admin by (rule guard_admin)
  have refused: "commit_error [f_title long_title, f_subtitle long_title, f_img_url long_title]
      [f_body long_title] = Some DataError"
    by (simp add: commit_error_def has_nul_def too_long_def long_title_def)
  have found: "find (\<lambda>p. p_id p = 2) (blog_posts blog_db) = Some (blog_posts blog_db ! 1)"
    by (simp add: blog_db_def)
  have "edit_post_view 2 (Some long_title) blog_db (session_of 1)
      = (blog_db, session_of 1, Unhandled DataError)"
    by (simp add: edit_post_view_def found refused current_user_alice)
  with routed current_user_alice admin show ?thesis
    by (simp add: blog_db_def)
qed

end
